theory Spec2Isabelle
  imports Main "HOL-Library.Sublist"
begin

section \<open>The student administration page (Students.jsx)\<close>

text \<open>
  The page keeps four pieces of React state (the cached student list, a loading flag, the
  search term and the current toast), derives the filtered list from the first and the
  third, and starts two kinds of network call.  The development below embeds the page's
  functions one by one: the pure ones (\<open>filteredStudents\<close>, \<open>getTrustColor\<close>, the badge
  markup) as HOL functions, the handlers as functions on an explicit page state, and each
  \<open>await\<close> as a cut between the part of a handler that runs before the response and the
  part that runs when the promise settles.
\<close>

subsection \<open>Strings\<close>

text \<open>
  A string is a list of characters; a character is read as the code point of the same
  number (U+0000 to U+00FF).  In that range \<open>toLowerCase\<close> moves A--Z and the capital
  letters U+00C0--U+00DE (the multiplication sign U+00D7 apart) up by 32, and \<open>trim\<close>
  strips tab, line feed, vertical tab, form feed, carriage return, space and the
  no-break space from both ends.
\<close>

definition toLowerChar :: "char \<Rightarrow> char" where
  "toLowerChar c =
     (let n = (of_char c :: nat)
      in if (65 \<le> n \<and> n \<le> 90) \<or> (192 \<le> n \<and> n \<le> 222 \<and> n \<noteq> 215)
         then char_of (n + 32) else c)"

definition toLowerCase :: "string \<Rightarrow> string" where
  "toLowerCase s = map toLowerChar s"

definition isWhiteSpace :: "char \<Rightarrow> bool" where
  "isWhiteSpace c = ((of_char c :: nat) \<in> {9, 10, 11, 12, 13, 32, 160})"

definition trim :: "string \<Rightarrow> string" where
  "trim s = rev (dropWhile isWhiteSpace (rev (dropWhile isWhiteSpace s)))"

text \<open>\<open>s.includes(t)\<close>: does \<open>t\<close> occur in \<open>s\<close> as a contiguous run.\<close>

fun includes_str :: "string \<Rightarrow> string \<Rightarrow> bool" where
  "includes_str [] t = (t = [])"
| "includes_str (c # cs) t = (prefix t (c # cs) \<or> includes_str cs t)"

subsection \<open>JavaScript values and student records\<close>

text \<open>
  The list comes from the response body of \<open>GET /users/all\<close>, so a field of a record can
  hold any JSON value, or be absent (\<open>JUndefined\<close>).  Nested objects and arrays are not
  looked into by the page; \<open>JObject\<close> stands for either.  The credit score is an integer
  when present; \<open>None\<close> is the absent score (\<open>undefined\<close> or \<open>null\<close>, which every use on
  the page treats alike).
\<close>

datatype jsval = JUndefined | JNull | JBool bool | JNum int | JStr string | JObject

record student =
  student_id :: jsval
  full_name :: jsval
  email :: jsval
  enrollment_no :: jsval
  credit_score :: "int option"
  hostel :: jsval
  room_no :: jsval
  requested_hostel :: jsval

datatype error = TypeError

fun truthy :: "jsval \<Rightarrow> bool" where
  "truthy JUndefined = False"
| "truthy JNull = False"
| "truthy (JBool b) = b"
| "truthy (JNum n) = (n \<noteq> 0)"
| "truthy (JStr s) = (s \<noteq> [])"
| "truthy JObject = True"

text \<open>\<open>a || b\<close> on values.\<close>

definition js_or :: "jsval \<Rightarrow> jsval \<Rightarrow> jsval" where
  "js_or a b = (if truthy a then a else b)"

text \<open>
  The method call \<open>v.toLowerCase()\<close>: only a string has the method; on a number, a
  boolean or an object the property is \<open>undefined\<close> and calling it is a TypeError, and
  on \<open>undefined\<close> and \<open>null\<close> the property access itself is one.
\<close>

fun call_toLowerCase :: "jsval \<Rightarrow> error + string" where
  "call_toLowerCase (JStr s) = Inr (toLowerCase s)"
| "call_toLowerCase v = Inl TypeError"

subsection \<open>The filter\<close>

text \<open>
  The callback of \<open>students.filter\<close> (lines 79--82).  The second operand of \<open>||\<close> is
  evaluated only when the first is false.
\<close>

definition matches :: "string \<Rightarrow> student \<Rightarrow> error + bool" where
  "matches term s =
     (case call_toLowerCase (js_or (full_name s) (JStr [])) of
        Inl e \<Rightarrow> Inl e
      | Inr name \<Rightarrow>
          if includes_str name term then Inr True
          else (case call_toLowerCase (js_or (enrollment_no s) (JStr [])) of
                  Inl e \<Rightarrow> Inl e
                | Inr enr \<Rightarrow> Inr (includes_str enr term)))"

text \<open>
  \<open>Array.prototype.filter\<close> with a callback that may throw: the elements are visited from
  the left and the first exception leaves the loop.
\<close>

fun filter_js :: "('a \<Rightarrow> error + bool) \<Rightarrow> 'a list \<Rightarrow> error + 'a list" where
  "filter_js p [] = Inr []"
| "filter_js p (x # xs) =
     (case p x of
        Inl e \<Rightarrow> Inl e
      | Inr b \<Rightarrow>
          (case filter_js p xs of
             Inl e \<Rightarrow> Inl e
           | Inr ys \<Rightarrow> Inr (if b then x # ys else ys)))"

definition filteredStudents :: "student list \<Rightarrow> string \<Rightarrow> error + student list" where
  "filteredStudents students searchTerm =
     (let term = trim (toLowerCase searchTerm)
      in if term = [] then Inr students else filter_js (matches term) students)"

text \<open>
  The specification's reading of a record, for comparison with the code: the text of a
  field is the string it holds, and the empty string when it holds none; a record matches
  a term when the term occurs in the lower-cased name or the lower-cased enrollment
  number.
\<close>

definition field_text :: "jsval \<Rightarrow> string" where
  "field_text v = (case v of JStr s \<Rightarrow> s | _ \<Rightarrow> [])"

definition spec_match :: "string \<Rightarrow> student \<Rightarrow> bool" where
  "spec_match t s =
     (sublist t (toLowerCase (field_text (full_name s)))
      \<or> sublist t (toLowerCase (field_text (enrollment_no s))))"

text \<open>A field the guard \<open>|| ""\<close> copes with: a string, or any falsy value.\<close>

definition text_or_falsy :: "jsval \<Rightarrow> bool" where
  "text_or_falsy v = (case v of JStr s \<Rightarrow> True | _ \<Rightarrow> \<not> truthy v)"

subsection \<open>The trust badge\<close>

definition getTrustColor :: "int \<Rightarrow> string" where
  "getTrustColor score =
     (if score \<ge> 10 then ''#22c55e''
      else if score \<ge> 5 then ''#3b82f6''
      else if score \<ge> 0 then ''#eab308''
      else ''#ef4444'')"

text \<open>\<open>s.credit_score || 0\<close> and \<open>s.credit_score < 0\<close> on a score that may be absent.\<close>

definition score_or_zero :: "int option \<Rightarrow> int" where
  "score_or_zero v = (case v of None \<Rightarrow> 0 | Some n \<Rightarrow> if n \<noteq> 0 then n else 0)"

definition score_negative :: "int option \<Rightarrow> bool" where
  "score_negative v = (case v of None \<Rightarrow> False | Some n \<Rightarrow> n < 0)"

datatype icon = AlertTriangle | ShieldCheck

record badge =
  border_color :: string
  text_color :: string
  badge_icon :: "icon option"
  badge_value :: int

text \<open>The badge of the desktop table (lines 216--218) and of the mobile card (244--246).\<close>

definition desktop_badge :: "student \<Rightarrow> badge" where
  "desktop_badge s =
     \<lparr>border_color = getTrustColor (score_or_zero (credit_score s)),
      text_color = getTrustColor (score_or_zero (credit_score s)),
      badge_icon = Some (if score_negative (credit_score s) then AlertTriangle else ShieldCheck),
      badge_value = score_or_zero (credit_score s)\<rparr>"

definition mobile_badge :: "student \<Rightarrow> badge" where
  "mobile_badge s =
     \<lparr>border_color = getTrustColor (score_or_zero (credit_score s)),
      text_color = getTrustColor (score_or_zero (credit_score s)),
      badge_icon = None,
      badge_value = score_or_zero (credit_score s)\<rparr>"

subsection \<open>Page state, timers and the network\<close>

text \<open>
  A toast is the object \<open>{ type, message, _id }\<close>; \<open>timer_id\<close> is its \<open>_id\<close>, the handle
  of the timer that will dismiss it.
\<close>

record toast_obj =
  toast_type :: string
  message :: string
  timer_id :: nat

datatype request = Get_users_all | Post_manage_hostel jsval string

datatype 'a response = Resolved 'a | Rejected

text \<open>
  The page state: the four \<open>useState\<close> cells; whether the component is in the tree
  (\<open>attached\<close>); the \<open>isMounted\<close> variable of the initial-load effect; and the part of the
  environment the handlers act on: the pending timers (handle and due time, in
  milliseconds; the only callback ever scheduled is \<open>setToast(null)\<close>), the last timer
  handle handed out, the clock, the requests sent and the console.

  React applies a state update only to a component that is in the tree.  An update of a
  component that is being removed, or is gone, is discarded: the value is not stored, and
  an updater function passed to the setter is never run, so neither are the calls it
  makes.  \<open>dropped\<close> lists, in order, the setters whose update was discarded.  On a
  component in the tree an updater is applied once to the value in the cell.
\<close>

record page =
  students :: "student list"
  loading :: bool
  searchTerm :: string
  toast :: "toast_obj option"
  attached :: bool
  dropped :: "string list"
  isMounted :: bool
  timers :: "(nat \<times> nat) list"
  last_handle :: nat
  clock :: nat
  requests :: "request list"
  console :: "string list"

definition discard :: "string \<Rightarrow> page \<Rightarrow> page" where
  "discard setter st = st\<lparr>dropped := dropped st @ [setter]\<rparr>"

definition setStudents :: "student list \<Rightarrow> page \<Rightarrow> page" where
  "setStudents d st = (if attached st then st\<lparr>students := d\<rparr> else discard ''setStudents'' st)"

definition setLoading :: "bool \<Rightarrow> page \<Rightarrow> page" where
  "setLoading b st = (if attached st then st\<lparr>loading := b\<rparr> else discard ''setLoading'' st)"

definition setSearchTerm :: "string \<Rightarrow> page \<Rightarrow> page" where
  "setSearchTerm v st =
     (if attached st then st\<lparr>searchTerm := v\<rparr> else discard ''setSearchTerm'' st)"

text \<open>\<open>setToast\<close> called with a value, and called with an updater function.  The updater
  gets the value in the cell and may act on the environment before it returns the new
  value.\<close>

definition setToast :: "toast_obj option \<Rightarrow> page \<Rightarrow> page" where
  "setToast v st = (if attached st then st\<lparr>toast := v\<rparr> else discard ''setToast'' st)"

definition setToast_with ::
  "(toast_obj option \<Rightarrow> page \<Rightarrow> toast_obj option \<times> page) \<Rightarrow> page \<Rightarrow> page" where
  "setToast_with f st =
     (if attached st
      then (let (v, st') = f (toast st) st in st'\<lparr>toast := v\<rparr>)
      else discard ''setToast'' st)"

definition console_error :: "string \<Rightarrow> page \<Rightarrow> page" where
  "console_error line st = st\<lparr>console := console st @ [line]\<rparr>"

text \<open>
  \<open>setTimeout\<close> hands out a fresh handle greater than zero and queues the timer;
  \<open>clearTimeout\<close> removes the timer with the given handle, if it is pending.
\<close>

definition setTimeout :: "nat \<Rightarrow> page \<Rightarrow> nat \<times> page" where
  "setTimeout delay st =
     (let h = Suc (last_handle st)
      in (h, st\<lparr>timers := timers st @ [(h, clock st + delay)], last_handle := h\<rparr>))"

definition clearTimeout :: "nat \<Rightarrow> page \<Rightarrow> page" where
  "clearTimeout h st = st\<lparr>timers := filter (\<lambda>(h', due). h' \<noteq> h) (timers st)\<rparr>"

text \<open>
  \<open>showToast\<close> (lines 17--25): the updater it hands to \<open>setToast\<close>, and the call.
  \<open>prev?._id\<close> is truthy when there is a toast whose handle is not 0.
\<close>

definition showToast_updater ::
  "string \<Rightarrow> string \<Rightarrow> toast_obj option \<Rightarrow> page \<Rightarrow> toast_obj option \<times> page" where
  "showToast_updater ty msg prev st =
     (let st1 = (case prev of
                   Some p \<Rightarrow> if timer_id p \<noteq> 0 then clearTimeout (timer_id p) st else st
                 | None \<Rightarrow> st);
          (h, st2) = setTimeout 3000 st1
      in (Some \<lparr>toast_type = ty, message = msg, timer_id = h\<rparr>, st2))"

definition showToast :: "string \<Rightarrow> string \<Rightarrow> page \<Rightarrow> page" where
  "showToast ty msg st = setToast_with (showToast_updater ty msg) st"

text \<open>
  A timer that expires leaves the queue and runs its callback \<open>setToast(null)\<close>.
  \<open>advance d\<close> lets \<open>d\<close> milliseconds pass and fires every timer that is due by then.
\<close>

definition fire :: "nat \<Rightarrow> page \<Rightarrow> page" where
  "fire h st = setToast None (clearTimeout h st)"

definition advance :: "nat \<Rightarrow> page \<Rightarrow> page" where
  "advance d st =
     (let st1 = st\<lparr>clock := clock st + d\<rparr>;
          due = filter (\<lambda>(h, t). t \<le> clock st1) (timers st1)
      in fold fire (map fst due) st1)"

text \<open>
  The cleanup of the toast effect (lines 28--35): the updater it hands to \<open>setToast\<close>, and
  the call.  Teardown takes the component out of the tree and then runs the cleanups of
  its effects in order: that of the toast effect, then that of the initial-load effect,
  which clears \<open>isMounted\<close>.
\<close>

definition cleanup_updater :: "toast_obj option \<Rightarrow> page \<Rightarrow> toast_obj option \<times> page" where
  "cleanup_updater current st =
     (None,
      case current of
        Some c \<Rightarrow> if timer_id c \<noteq> 0 then clearTimeout (timer_id c) st else st
      | None \<Rightarrow> st)"

definition toast_cleanup :: "page \<Rightarrow> page" where
  "toast_cleanup st = setToast_with cleanup_updater st"

definition unmount :: "page \<Rightarrow> page" where
  "unmount st = (toast_cleanup (st\<lparr>attached := False\<rparr>))\<lparr>isMounted := False\<rparr>"

text \<open>
  \<open>loadStudents\<close> (lines 38--49), cut at its \<open>await\<close>: what runs at the call, and what runs
  when the request settles.  \<open>loadStudents res\<close> is the call whose request settles with
  \<open>res\<close> before anything else happens.
\<close>

definition loadStudents_begin :: "page \<Rightarrow> page" where
  "loadStudents_begin st =
     (let st1 = setLoading True st in st1\<lparr>requests := requests st1 @ [Get_users_all]\<rparr>)"

definition loadStudents_settle :: "student list response \<Rightarrow> page \<Rightarrow> page" where
  "loadStudents_settle res st =
     setLoading False
       (case res of
          Resolved d \<Rightarrow> setStudents d st
        | Rejected \<Rightarrow>
            showToast ''error'' ''Failed to connect to database''
              (console_error ''Database Fetch Error:'' st))"

definition loadStudents :: "student list response \<Rightarrow> page \<Rightarrow> page" where
  "loadStudents res st = loadStudents_settle res (loadStudents_begin st)"

text \<open>The initial load \<open>run\<close> of the mount effect (lines 52--72), cut in the same way.\<close>

definition run_begin :: "page \<Rightarrow> page" where
  "run_begin st =
     (let st1 = setLoading True st in st1\<lparr>requests := requests st1 @ [Get_users_all]\<rparr>)"

definition run_settle :: "student list response \<Rightarrow> page \<Rightarrow> page" where
  "run_settle res st =
     (let st1 = (case res of
                   Resolved d \<Rightarrow> if isMounted st then setStudents d st else st
                 | Rejected \<Rightarrow>
                     if isMounted st
                     then showToast ''error'' ''Failed to connect to database''
                            (console_error ''Database Fetch Error:'' st)
                     else st)
      in if isMounted st1 then setLoading False st1 else st1)"

text \<open>\<open>handleRequest\<close> (lines 85--93); \<open>loadStudents()\<close> is started and not awaited.\<close>

definition handleRequest_begin :: "jsval \<Rightarrow> string \<Rightarrow> page \<Rightarrow> page" where
  "handleRequest_begin sid action st =
     st\<lparr>requests := requests st @ [Post_manage_hostel sid action]\<rparr>"

definition handleRequest_settle :: "string \<Rightarrow> unit response \<Rightarrow> page \<Rightarrow> page" where
  "handleRequest_settle action res st =
     (case res of
        Resolved u \<Rightarrow>
          loadStudents_begin
            (showToast ''success'' (''Request '' @ action @ ''ed successfully'') st)
      | Rejected \<Rightarrow> showToast ''error'' ''Action failed'' st)"

definition handleRequest :: "jsval \<Rightarrow> string \<Rightarrow> unit response \<Rightarrow> page \<Rightarrow> page" where
  "handleRequest sid action res st =
     handleRequest_settle action res (handleRequest_begin sid action st)"

text \<open>The state of the first render, and the mount effects.\<close>

definition initial :: page where
  "initial =
     \<lparr>students = [], loading = True, searchTerm = [], toast = None, attached = True,
      dropped = [], isMounted = False, timers = [], last_handle = 0, clock = 0,
      requests = [], console = []\<rparr>"

definition mount :: "page \<Rightarrow> page" where
  "mount st = run_begin (st\<lparr>isMounted := True\<rparr>)"

text \<open>
  What can happen to the page, one event at a time.  The search box and the buttons
  exist only while the component is in the tree, and the component is torn down once;
  responses and timers arrive whether it is there or not.  The refresh button calls
  \<open>loadStudents\<close> only when the page is not loading.  A settle event stands for the
  response of a request sent earlier; \<open>Post_settled\<close> carries the action its handler was
  called with.
\<close>

datatype event =
    Type_search string
  | Click_refresh
  | Load_settled "student list response"
  | Run_settled "student list response"
  | Click_action jsval string
  | Post_settled string "unit response"
  | Advance nat
  | Unmount

fun step :: "event \<Rightarrow> page \<Rightarrow> page" where
  "step (Type_search v) st = (if attached st then setSearchTerm v st else st)"
| "step Click_refresh st = (if attached st \<and> \<not> loading st then loadStudents_begin st else st)"
| "step (Load_settled res) st = loadStudents_settle res st"
| "step (Run_settled res) st = run_settle res st"
| "step (Click_action sid action) st =
     (if attached st then handleRequest_begin sid action st else st)"
| "step (Post_settled action res) st = handleRequest_settle action res st"
| "step (Advance d) st = advance d st"
| "step Unmount st = (if attached st then unmount st else st)"

definition exec :: "event list \<Rightarrow> page" where
  "exec evs = fold step evs (mount initial)"

text \<open>
  The toast markup (lines 141--145): border colour and message of each toast drawn.  A
  component that is not in the tree draws nothing.
\<close>

definition rendered_toasts :: "page \<Rightarrow> (string \<times> string) list" where
  "rendered_toasts st =
     (if attached st
      then (case toast st of
              None \<Rightarrow> []
            | Some t \<Rightarrow>
                [(if toast_type t = ''success'' then ''#10b981'' else ''#ef4444'', message t)])
      else [])"

text \<open>
  The timer discipline.  While the component is in the tree: no toast, no pending timer;
  a toast, exactly its own timer, with a handle that \<open>prev?._id\<close> sees.  Afterwards: at
  most one timer.
\<close>

definition timer_inv :: "page \<Rightarrow> bool" where
  "timer_inv st =
     (if attached st
      then (case toast st of
              None \<Rightarrow> timers st = []
            | Some t \<Rightarrow> timer_id t \<noteq> 0 \<and> map fst (timers st) = [timer_id t])
      else length (timers st) \<le> 1)"

text \<open>The visible state: the values of the four cells.\<close>

definition cells :: "page \<Rightarrow> student list \<times> bool \<times> string \<times> toast_obj option" where
  "cells st = (students st, loading st, searchTerm st, toast st)"

text \<open>
  \<open>still_gone st st'\<close>: the component is gone in \<open>st'\<close>, which shows what \<open>st\<close> held and has
  set no timer since.
\<close>

definition still_gone :: "page \<Rightarrow> page \<Rightarrow> bool" where
  "still_gone st st' =
     (cells st' = cells st \<and> \<not> attached st' \<and> \<not> isMounted st'
      \<and> last_handle st' = last_handle st \<and> set (timers st') \<subseteq> set (timers st))"

subsection \<open>Sample records and call sequences\<close>

text \<open>Records used in the worked instances below.\<close>

definition ravi :: student where
  "ravi =
     \<lparr>student_id = JNum 1, full_name = JStr ''Ravi Kumar'', email = JStr ''ravi@campus.example'',
      enrollment_no = JStr ''CS101'', credit_score = Some 12, hostel = JStr ''A'',
      room_no = JNum 12, requested_hostel = JNull\<rparr>"

definition meera :: student where
  "meera =
     \<lparr>student_id = JNum 2, full_name = JStr ''Meera Nair'', email = JStr ''meera@campus.example'',
      enrollment_no = JStr ''EE205'', credit_score = Some (- 3), hostel = JNull,
      room_no = JNull, requested_hostel = JStr ''B''\<rparr>"

definition newcomer :: student where
  "newcomer =
     \<lparr>student_id = JNum 3, full_name = JUndefined, email = JStr ''new@campus.example'',
      enrollment_no = JNull, credit_score = None, hostel = JNull,
      room_no = JNull, requested_hostel = JNull\<rparr>"

definition numbered :: student where
  "numbered =
     \<lparr>student_id = JNum 4, full_name = JStr ''Asha Rao'', email = JStr ''asha@campus.example'',
      enrollment_no = JNum 101, credit_score = Some 0, hostel = JNull,
      room_no = JNull, requested_hostel = JNull\<rparr>"

text \<open>A run of \<open>showToast\<close> calls, one after the other, with nothing in between.\<close>

definition show_all :: "(string \<times> string) list \<Rightarrow> page \<Rightarrow> page" where
  "show_all calls st = fold (\<lambda>(ty, msg). showToast ty msg) calls st"



section \<open>Properties of the filter\<close>

lemma includes_str_sublist: "includes_str s t = sublist t s"
  by (induction s) (simp_all add: sublist_Cons_right)

lemma isWhiteSpace_toLowerChar: "isWhiteSpace (toLowerChar c) = isWhiteSpace c"
  by (auto simp: isWhiteSpace_def toLowerChar_def Let_def)

lemma trim_toLowerCase: "trim (toLowerCase s) = toLowerCase (trim s)"
proof -
  have comp: "isWhiteSpace \<circ> toLowerChar = isWhiteSpace"
    by (rule ext) (simp add: isWhiteSpace_toLowerChar)
  show ?thesis
    by (simp add: trim_def toLowerCase_def dropWhile_map rev_map comp)
qed

lemma trim_blank: "\<forall>c\<in>set s. isWhiteSpace c \<Longrightarrow> trim (toLowerCase s) = []"
proof -
  assume "\<forall>c\<in>set s. isWhiteSpace c"
  then have h: "dropWhile isWhiteSpace (map toLowerChar s) = []"
    by (simp add: isWhiteSpace_toLowerChar)
  show ?thesis
    by (simp add: trim_def toLowerCase_def h)
qed

text \<open>On a record whose two fields are strings or falsy the callback returns, and agrees
  with the specification's reading.\<close>

lemma matches_text:
  "text_or_falsy (full_name s) \<Longrightarrow> text_or_falsy (enrollment_no s) \<Longrightarrow>
   matches t s = Inr (spec_match t s)"
  by (cases "full_name s"; cases "enrollment_no s")
     (auto simp: matches_def spec_match_def text_or_falsy_def js_or_def field_text_def
        includes_str_sublist toLowerCase_def)

text \<open>When the callback throws: the name is a truthy non-string, or the name does not
  contain the term and the enrollment number is a truthy non-string.\<close>

lemma matches_throws:
  "matches t s = Inl TypeError \<longleftrightarrow>
     \<not> text_or_falsy (full_name s)
     \<or> (\<not> sublist t (toLowerCase (field_text (full_name s)))
        \<and> \<not> text_or_falsy (enrollment_no s))"
  by (cases "full_name s"; cases "enrollment_no s")
     (auto simp: matches_def text_or_falsy_def js_or_def field_text_def
        includes_str_sublist toLowerCase_def)

lemma filter_js_total:
  "\<forall>x\<in>set xs. p x = Inr (q x) \<Longrightarrow> filter_js p xs = Inr (filter q xs)"
  by (induction xs) simp_all

lemma filter_js_idem:
  "filter_js p xs = Inr ys \<Longrightarrow> filter_js p ys = Inr ys"
proof (induction xs arbitrary: ys)
  case Nil
  then show ?case by simp
next
  case (Cons x xs)
  then show ?case by (auto split: sum.splits if_splits)
qed

text \<open>
  Claim C1, as amended.  For every list of records whose name and enrollment number are
  each a string or a falsy value (absent, \<open>null\<close>, \<open>false\<close>, \<open>0\<close>, the empty string) and
  every search term, the filter returns without throwing; its result is the input with
  exactly those records kept in which the lower-cased, trimmed term occurs in the
  lower-cased name or the lower-cased enrollment number, a field that holds no string
  counting as the empty string; the result is an order-preserving sublist of the input;
  and lower-casing then trimming the term, as the code does, is the same as trimming then
  lower-casing it.
\<close>

theorem filteredStudents_text_fields:
  assumes "\<forall>s\<in>set xs. text_or_falsy (full_name s) \<and> text_or_falsy (enrollment_no s)"
  shows "filteredStudents xs q = Inr (filter (spec_match (trim (toLowerCase q))) xs)
         \<and> subseq (filter (spec_match (trim (toLowerCase q))) xs) xs
         \<and> trim (toLowerCase q) = toLowerCase (trim q)"
proof -
  let ?t = "trim (toLowerCase q)"
  have m: "\<forall>s\<in>set xs. matches ?t s = Inr (spec_match ?t s)"
    using assms by (simp add: matches_text)
  have "filteredStudents xs q = Inr (filter (spec_match ?t) xs)"
  proof (cases "?t = []")
    case True
    then show ?thesis by (simp add: filteredStudents_def spec_match_def)
  next
    case False
    then show ?thesis
      using filter_js_total [OF m] by (simp add: filteredStudents_def)
  qed
  then show ?thesis
    by (simp add: trim_toLowerCase)
qed

text \<open>
  An instance: among Ravi Kumar (CS101), Meera Nair (EE205) and a record with neither
  name nor enrollment number, the terms \<open>"  RAVI "\<close> and \<open>"cs1"\<close> both select Ravi alone.
\<close>

theorem filteredStudents_text_fields_witness:
  "list_all (\<lambda>s. text_or_falsy (full_name s) \<and> text_or_falsy (enrollment_no s))
     [ravi, meera, newcomer]
   \<and> filteredStudents [ravi, meera, newcomer] ''  RAVI '' = Inr [ravi]
   \<and> filteredStudents [ravi, meera, newcomer] ''cs1'' = Inr [ravi]"
proof -
  have h: "\<forall>s\<in>set [ravi, meera, newcomer].
       text_or_falsy (full_name s) \<and> text_or_falsy (enrollment_no s)"
    by (simp add: ravi_def meera_def newcomer_def text_or_falsy_def)
  have a: "filter (spec_match (trim (toLowerCase ''  RAVI ''))) [ravi, meera, newcomer] = [ravi]"
    by code_simp
  have b: "filter (spec_match (trim (toLowerCase ''cs1''))) [ravi, meera, newcomer] = [ravi]"
    by code_simp
  show ?thesis
    using h filteredStudents_text_fields [OF h, of "''  RAVI ''"]
      filteredStudents_text_fields [OF h, of "''cs1''"]
    by (simp only: a b list_all_iff)
qed

text \<open>
  Claim C1 as stated fails where it says that the filter never throws for any record
  shape: on a record whose enrollment number is the number 101 and whose name does not
  contain the term, \<open>(s.enrollment_no || "")\<close> is that number, which has no
  \<open>toLowerCase\<close> method, and the filter throws a TypeError.
\<close>

theorem filteredStudents_throws_on_number:
  "filteredStudents [numbered] ''cs1'' = Inl TypeError"
  by code_simp

text \<open>
  Claim C6.  For every cached list, whatever its records hold, a search term that is empty
  or consists only of whitespace makes the filter return the list unchanged.
\<close>

theorem filteredStudents_blank_term:
  "\<forall>c\<in>set q. isWhiteSpace c \<Longrightarrow> filteredStudents xs q = Inr xs"
  by (simp add: filteredStudents_def trim_blank)

theorem filteredStudents_blank_term_witness:
  "list_all isWhiteSpace [CHR '' '', CHR 0x09, CHR '' '']
   \<and> filteredStudents [ravi, numbered, newcomer] [CHR '' '', CHR 0x09, CHR '' '']
       = Inr [ravi, numbered, newcomer]"
proof -
  have h: "\<forall>c\<in>set [CHR '' '', CHR 0x09, CHR '' '']. isWhiteSpace c"
    by (simp add: isWhiteSpace_def)
  show ?thesis
    using h filteredStudents_blank_term [OF h, of "[ravi, numbered, newcomer]"]
    by (simp only: list_all_iff)
qed

text \<open>
  Claim C9.  The filter is idempotent: for every list and search term, applying the
  filter with the same term to its own output returns that output unchanged (and where
  the first application throws there is no output: the equation below then reads
  \<open>Inl e = Inl e\<close>).
\<close>

theorem filteredStudents_idempotent:
  "(case filteredStudents xs q of Inl e \<Rightarrow> Inl e | Inr ys \<Rightarrow> filteredStudents ys q)
     = filteredStudents xs q"
proof (cases "filteredStudents xs q")
  case (Inl e)
  then show ?thesis by simp
next
  case (Inr ys)
  then have "filteredStudents ys q = Inr ys"
    by (auto simp: filteredStudents_def Let_def filter_js_idem split: if_splits)
  with Inr show ?thesis by simp
qed

theorem filteredStudents_idempotent_witness:
  "filteredStudents [ravi, meera, newcomer] ''e'' = Inr [meera]
   \<and> filteredStudents [meera] ''e'' = Inr [meera]"
proof -
  have a: "filteredStudents [ravi, meera, newcomer] ''e'' = Inr [meera]"
    by code_simp
  show ?thesis
    using filteredStudents_idempotent [where xs = "[ravi, meera, newcomer]" and q = "''e''"]
    by (simp add: a)
qed


section \<open>Properties of the trust badge\<close>

text \<open>
  Claim C8.  For every integer score the badge colour is exactly one of four, by the
  thresholds: the highest tier (green) exactly when the score is at least 10, the mid
  tier (blue) exactly when it is at least 5 and below 10, the low tier (yellow) exactly
  when it is at least 0 and below 5, and flagged (red) exactly when it is negative.
\<close>

theorem getTrustColor_tiers:
  "(getTrustColor score = ''#22c55e'' \<longleftrightarrow> 10 \<le> score)
   \<and> (getTrustColor score = ''#3b82f6'' \<longleftrightarrow> 5 \<le> score \<and> score < 10)
   \<and> (getTrustColor score = ''#eab308'' \<longleftrightarrow> 0 \<le> score \<and> score < 5)
   \<and> (getTrustColor score = ''#ef4444'' \<longleftrightarrow> score < 0)"
  by (simp add: getTrustColor_def)

theorem getTrustColor_tiers_witness:
  "getTrustColor 12 = ''#22c55e'' \<and> getTrustColor 10 = ''#22c55e''
   \<and> getTrustColor 9 = ''#3b82f6'' \<and> getTrustColor 5 = ''#3b82f6''
   \<and> getTrustColor 4 = ''#eab308'' \<and> getTrustColor 0 = ''#eab308''
   \<and> getTrustColor (- 1) = ''#ef4444''"
  using getTrustColor_tiers [of 12] getTrustColor_tiers [of 10] getTrustColor_tiers [of 9]
    getTrustColor_tiers [of 5] getTrustColor_tiers [of 4] getTrustColor_tiers [of 0]
    getTrustColor_tiers [of "- 1"]
  by simp

text \<open>
  Claim C10.  For a record whose credit score is missing, both badges show the value 0 in
  the low-tier colour (that of a score of 0), and the desktop badge carries the shield
  icon; the desktop badge carries the warning icon exactly when the score is present and
  strictly negative, and the mobile badge carries no icon at all.
\<close>

theorem badge_of_missing_score:
  "(credit_score s = None \<longrightarrow>
      badge_value (desktop_badge s) = 0 \<and> badge_value (mobile_badge s) = 0
      \<and> border_color (desktop_badge s) = ''#eab308'' \<and> text_color (desktop_badge s) = ''#eab308''
      \<and> border_color (mobile_badge s) = ''#eab308'' \<and> text_color (mobile_badge s) = ''#eab308''
      \<and> getTrustColor 0 = ''#eab308''
      \<and> badge_icon (desktop_badge s) = Some ShieldCheck)
   \<and> (badge_icon (desktop_badge s) = Some AlertTriangle
        \<longleftrightarrow> (\<exists>n. credit_score s = Some n \<and> n < 0))
   \<and> badge_icon (mobile_badge s) = None"
  by (cases "credit_score s")
     (simp_all add: desktop_badge_def mobile_badge_def score_or_zero_def score_negative_def
        getTrustColor_def)

theorem badge_of_missing_score_witness:
  "credit_score newcomer = None
   \<and> badge_value (desktop_badge newcomer) = 0
   \<and> border_color (desktop_badge newcomer) = ''#eab308''
   \<and> badge_icon (desktop_badge newcomer) = Some ShieldCheck
   \<and> badge_icon (desktop_badge meera) = Some AlertTriangle"
proof -
  have h: "credit_score newcomer = None"
    by (simp add: newcomer_def)
  have m: "credit_score meera = Some (- 3)"
    by (simp add: meera_def)
  show ?thesis
    using h m badge_of_missing_score [of newcomer] badge_of_missing_score [of meera] by simp
qed



section \<open>The notification timer\<close>

text \<open>What \<open>showToast\<close> writes, and what it leaves alone.\<close>

lemma showToast_detached: "\<not> attached st \<Longrightarrow> showToast ty msg st = discard ''setToast'' st"
  by (simp add: showToast_def setToast_with_def)

lemma showToast_toast:
  "attached st \<Longrightarrow>
   toast (showToast ty msg st)
     = Some \<lparr>toast_type = ty, message = msg, timer_id = Suc (last_handle st)\<rparr>"
  by (simp add: showToast_def setToast_with_def showToast_updater_def setTimeout_def
      clearTimeout_def Let_def split: option.splits)

lemma showToast_last_handle:
  "attached st \<Longrightarrow> last_handle (showToast ty msg st) = Suc (last_handle st)"
  by (simp add: showToast_def setToast_with_def showToast_updater_def setTimeout_def
      clearTimeout_def Let_def split: option.splits)

lemma showToast_frame:
  "students (showToast ty msg st) = students st"
  "loading (showToast ty msg st) = loading st"
  "searchTerm (showToast ty msg st) = searchTerm st"
  "attached (showToast ty msg st) = attached st"
  "isMounted (showToast ty msg st) = isMounted st"
  "requests (showToast ty msg st) = requests st"
  "console (showToast ty msg st) = console st"
  "clock (showToast ty msg st) = clock st"
  by (simp_all add: showToast_def setToast_with_def showToast_updater_def setTimeout_def
      clearTimeout_def discard_def Let_def split: option.splits)

lemma inv_at_most_one: "timer_inv st \<Longrightarrow> length (timers st) \<le> 1"
  by (cases "attached st"; cases "toast st")
     (auto simp: timer_inv_def dest: arg_cong [where f = length])

lemma at_most_one_cases:
  "length (xs :: (nat \<times> nat) list) \<le> 1 \<Longrightarrow> xs = [] \<or> (\<exists>h due. xs = [(h, due)])"
  by (cases xs) auto

lemma timer_inv_frame:
  "attached st' = attached st \<Longrightarrow> toast st' = toast st \<Longrightarrow> timers st' = timers st \<Longrightarrow>
   timer_inv st' = timer_inv st"
  by (simp add: timer_inv_def split: option.split)

lemma showToast_timers:
  assumes "attached st" and "timer_inv st"
  shows "timers (showToast ty msg st) = [(Suc (last_handle st), clock st + 3000)]"
proof (cases "toast st")
  case None
  with assms show ?thesis
    by (simp add: showToast_def setToast_with_def showToast_updater_def setTimeout_def
        timer_inv_def Let_def)
next
  case (Some t)
  with assms obtain due where "timers st = [(timer_id t, due)]" and "timer_id t \<noteq> 0"
    by (auto simp: timer_inv_def)
  with Some assms show ?thesis
    by (simp add: showToast_def setToast_with_def showToast_updater_def setTimeout_def
        clearTimeout_def Let_def)
qed

lemma showToast_inv: "timer_inv st \<Longrightarrow> timer_inv (showToast ty msg st)"
proof (cases "attached st")
  case True
  assume "timer_inv st"
  with True show ?thesis
    by (simp add: timer_inv_def [of "showToast ty msg st"] showToast_toast showToast_timers
        showToast_frame)
next
  case False
  assume "timer_inv st"
  with False show ?thesis
    by (simp add: showToast_detached discard_def timer_inv_def)
qed

lemma setters_inv:
  "timer_inv (setStudents d st) = timer_inv st"
  "timer_inv (setLoading b st) = timer_inv st"
  "timer_inv (setSearchTerm v st) = timer_inv st"
  "timer_inv (console_error l st) = timer_inv st"
  "timer_inv (loadStudents_begin st) = timer_inv st"
  "timer_inv (handleRequest_begin sid action st) = timer_inv st"
  by (rule timer_inv_frame;
      simp add: setStudents_def setLoading_def setSearchTerm_def console_error_def
        loadStudents_begin_def handleRequest_begin_def discard_def Let_def)+

text \<open>Teardown: the cleanup's update is discarded, and every timer stays where it is.\<close>

lemma unmount_eq:
  "unmount st = st\<lparr>attached := False, dropped := dropped st @ [''setToast''], isMounted := False\<rparr>"
  by (simp add: unmount_def toast_cleanup_def setToast_with_def discard_def)

lemma unmount_inv: "timer_inv st \<Longrightarrow> timer_inv (unmount st)"
  using inv_at_most_one [of st] by (simp add: unmount_eq timer_inv_def [of "st\<lparr>attached := False, dropped := dropped st @ [''setToast''], isMounted := False\<rparr>"])

text \<open>Time passing, with no timer pending and with one.\<close>

lemma advance_idle:
  "timers st = [] \<Longrightarrow> advance d st = st\<lparr>clock := clock st + d\<rparr>"
  by (simp add: advance_def Let_def)

lemma advance_one:
  "timers st = [(h, due)] \<Longrightarrow>
   advance d st =
     (if due \<le> clock st + d
      then setToast None (st\<lparr>clock := clock st + d, timers := []\<rparr>)
      else st\<lparr>clock := clock st + d\<rparr>)"
  by (simp add: advance_def fire_def clearTimeout_def Let_def)

lemma advance_inv: "timer_inv st \<Longrightarrow> timer_inv (advance d st)"
proof -
  assume inv: "timer_inv st"
  then have "length (timers st) \<le> 1"
    by (rule inv_at_most_one)
  then have "timers st = [] \<or> (\<exists>h due. timers st = [(h, due)])"
    by (rule at_most_one_cases)
  then consider "timers st = []" | h due where "timers st = [(h, due)]"
    by blast
  then show ?thesis
  proof cases
    case 1
    then show ?thesis
      using inv by (auto simp: advance_idle timer_inv_def split: option.splits if_splits)
  next
    case 2
    then show ?thesis
      using inv
      by (cases "attached st")
         (auto simp: advance_one setToast_def discard_def timer_inv_def split: option.splits)
  qed
qed

text \<open>Waiting in two steps is waiting once for the sum.\<close>

lemma advance_add:
  assumes "length (timers st) \<le> 1"
  shows "advance d' (advance d st) = advance (d + d') st"
proof -
  from assms have "timers st = [] \<or> (\<exists>h due. timers st = [(h, due)])"
    by (rule at_most_one_cases)
  then consider "timers st = []" | h due where "timers st = [(h, due)]"
    by blast
  then show ?thesis
  proof cases
    case 1
    then show ?thesis
      by (simp add: advance_idle add.assoc)
  next
    case 2
    show ?thesis
    proof (cases "due \<le> clock st + d")
      case True
      then show ?thesis
        by (simp add: advance_one [OF 2] advance_idle setToast_def discard_def add.assoc)
    next
      case False
      let ?st' = "st\<lparr>clock := clock st + d\<rparr>"
      have tm: "timers ?st' = [(h, due)]"
        using 2 by simp
      have "advance d st = ?st'"
        using False by (simp add: advance_one [OF 2])
      moreover have "advance d' ?st' = advance (d + d') st"
        by (simp add: advance_one [OF tm] advance_one [OF 2] setToast_def discard_def add.assoc)
      ultimately show ?thesis by simp
    qed
  qed
qed

text \<open>The discipline holds in every state the page reaches.\<close>

lemma loadStudents_settle_inv: "timer_inv st \<Longrightarrow> timer_inv (loadStudents_settle res st)"
  by (cases res) (simp_all add: loadStudents_settle_def setters_inv showToast_inv)

lemma run_settle_inv: "timer_inv st \<Longrightarrow> timer_inv (run_settle res st)"
  by (cases res)
     (simp_all add: run_settle_def Let_def setters_inv showToast_inv showToast_frame)

lemma handleRequest_settle_inv: "timer_inv st \<Longrightarrow> timer_inv (handleRequest_settle a res st)"
  by (cases res) (simp_all add: handleRequest_settle_def setters_inv showToast_inv)

lemma step_inv: "timer_inv st \<Longrightarrow> timer_inv (step e st)"
  by (cases e)
     (simp_all add: setters_inv loadStudents_settle_inv run_settle_inv
        handleRequest_settle_inv advance_inv unmount_inv)

lemma fold_step_inv: "timer_inv st \<Longrightarrow> timer_inv (fold step evs st)"
  by (induction evs arbitrary: st) (simp_all add: step_inv)

lemma mount_inv: "timer_inv (mount initial)"
  by (simp add: mount_def initial_def run_begin_def setLoading_def timer_inv_def Let_def)

lemma exec_inv: "timer_inv (exec evs)"
  by (simp add: exec_def fold_step_inv mount_inv)

lemma show_all_inv: "timer_inv st \<Longrightarrow> timer_inv (show_all calls st)"
  unfolding show_all_def
  by (induction calls arbitrary: st) (auto simp: showToast_inv)

lemma show_all_frame:
  "clock (show_all calls st) = clock st"
  "students (show_all calls st) = students st"
  "attached (show_all calls st) = attached st"
  unfolding show_all_def
  by (induction calls arbitrary: st) (auto simp: showToast_frame)

lemma rendered_at_most_one: "length (rendered_toasts st) \<le> 1"
  by (simp add: rendered_toasts_def split: option.split)

text \<open>
  While the component is in the tree the notification queue behaves as the
  specification describes: in every state the page reaches, and after any further run
  of \<open>showToast\<close> calls, at most one notification is drawn and at most one dismissal
  timer is pending; a \<open>showToast\<close> leaves pending only the timer it has just set, the
  previous one being cancelled; and two calls in a row leave exactly the second
  notification visible, with exactly one pending timer, its own.
\<close>

lemma one_toast_one_timer_in_tree:
  "length (rendered_toasts (show_all calls (exec evs))) \<le> 1
   \<and> length (timers (show_all calls (exec evs))) \<le> 1
   \<and> (attached (exec evs) \<longrightarrow>
        timers (showToast ty msg (show_all calls (exec evs)))
          = [(Suc (last_handle (show_all calls (exec evs))), clock (exec evs) + 3000)]
        \<and> toast (showToast ty' msg' (showToast ty msg (show_all calls (exec evs))))
          = Some \<lparr>toast_type = ty', message = msg',
                  timer_id = Suc (Suc (last_handle (show_all calls (exec evs))))\<rparr>
        \<and> rendered_toasts (showToast ty' msg' (showToast ty msg (show_all calls (exec evs))))
          = [(if ty' = ''success'' then ''#10b981'' else ''#ef4444'', msg')]
        \<and> timers (showToast ty' msg' (showToast ty msg (show_all calls (exec evs))))
          = [(Suc (Suc (last_handle (show_all calls (exec evs)))), clock (exec evs) + 3000)])"
proof -
  define st where "st = show_all calls (exec evs)"
  have inv: "timer_inv st"
    unfolding st_def by (rule show_all_inv) (rule exec_inv)
  have inv1: "timer_inv (showToast ty msg st)"
    using inv by (rule showToast_inv)
  have c: "clock st = clock (exec evs)"
    by (simp add: st_def show_all_frame)
  have a: "attached st = attached (exec evs)"
    by (simp add: st_def show_all_frame)
  have "length (rendered_toasts st) \<le> 1"
    by (rule rendered_at_most_one)
  moreover have "length (timers st) \<le> 1"
    using inv by (rule inv_at_most_one)
  moreover have "timers (showToast ty msg st) = [(Suc (last_handle st), clock (exec evs) + 3000)]"
    if "attached st"
    using that by (simp add: showToast_timers [OF _ inv] c)
  moreover have "toast (showToast ty' msg' (showToast ty msg st))
       = Some \<lparr>toast_type = ty', message = msg', timer_id = Suc (Suc (last_handle st))\<rparr>"
    if "attached st"
    using that by (simp add: showToast_toast showToast_frame showToast_last_handle)
  moreover have "rendered_toasts (showToast ty' msg' (showToast ty msg st))
       = [(if ty' = ''success'' then ''#10b981'' else ''#ef4444'', msg')]"
    if "attached st"
    using that by (simp add: rendered_toasts_def showToast_toast showToast_frame)
  moreover have "timers (showToast ty' msg' (showToast ty msg st))
       = [(Suc (Suc (last_handle st)), clock (exec evs) + 3000)]"
    if "attached st"
    using that
    by (simp add: showToast_timers [OF _ inv1] showToast_frame showToast_last_handle c)
  ultimately show ?thesis
    unfolding st_def [symmetric] a [symmetric] by simp
qed

text \<open>
  Claim C4 fails at teardown.  The claim, and the comment at line 27 of the source, say
  that teardown cancels the outstanding timer.  The cleanup calls \<open>clearTimeout\<close> inside
  an updater handed to \<open>setToast\<close>, on a component that is being removed: the updater is
  never run, and every pending timer stays pending.  At the input below the initial load
  fails at time 0 (a toast with timer 1, due at 3000), the component is then torn down,
  the timer is still pending, and it fires at 3000, its \<open>setToast(null)\<close> discarded.
\<close>

theorem teardown_leaves_timer_pending:
  "timers (unmount st) = timers st
   \<and> timers (exec [Run_settled Rejected]) = [(1, 3000)]
   \<and> timers (exec [Run_settled Rejected, Unmount]) = [(1, 3000)]
   \<and> dropped (exec [Run_settled Rejected, Unmount]) = [''setToast'']
   \<and> timers (exec [Run_settled Rejected, Unmount, Advance 3000]) = []
   \<and> dropped (exec [Run_settled Rejected, Unmount, Advance 3000]) = [''setToast'', ''setToast'']"
proof -
  have "timers (unmount st) = timers st"
    by (simp add: unmount_eq)
  moreover have "timers (exec [Run_settled Rejected]) = [(1, 3000)]"
    by code_simp
  moreover have "timers (exec [Run_settled Rejected, Unmount]) = [(1, 3000)]"
    by code_simp
  moreover have "dropped (exec [Run_settled Rejected, Unmount]) = [''setToast'']"
    by code_simp
  moreover have "timers (exec [Run_settled Rejected, Unmount, Advance 3000]) = []"
    by code_simp
  moreover have "dropped (exec [Run_settled Rejected, Unmount, Advance 3000])
                   = [''setToast'', ''setToast'']"
    by code_simp
  ultimately show ?thesis
    by simp
qed

text \<open>
  Claim C7.  After \<open>showToast\<close> in a state the page reaches with the component in the
  tree, and with no further call, the notification stays visible while less than 3000
  milliseconds (3 seconds) have passed, and once 3000 milliseconds have passed its timer
  has fired: the notification is gone and no timer is pending.  The time may pass in one
  step or in several.
\<close>

theorem toast_dismissed_after_3000ms:
  "(attached (exec evs) \<longrightarrow>
      toast (advance d (showToast ty msg (exec evs)))
        = (if d < 3 * 1000
           then Some \<lparr>toast_type = ty, message = msg, timer_id = Suc (last_handle (exec evs))\<rparr>
           else None)
      \<and> timers (advance d (showToast ty msg (exec evs)))
        = (if d < 3 * 1000
           then [(Suc (last_handle (exec evs)), clock (exec evs) + 3 * 1000)] else [])
      \<and> rendered_toasts (advance d (showToast ty msg (exec evs)))
        = (if d < 3 * 1000
           then [(if ty = ''success'' then ''#10b981'' else ''#ef4444'', msg)] else []))
   \<and> advance d' (advance d (showToast ty msg (exec evs)))
     = advance (d + d') (showToast ty msg (exec evs))"
proof -
  define st where "st = exec evs"
  define st1 where "st1 = showToast ty msg st"
  have inv: "timer_inv st"
    unfolding st_def by (rule exec_inv)
  have inv1: "timer_inv st1"
    unfolding st1_def using inv by (rule showToast_inv)
  have c: "clock st1 = clock st" and a: "attached st1 = attached st"
    by (simp_all add: st1_def showToast_frame)
  have shown: "toast (advance d st1)
        = (if d < 3 * 1000
           then Some \<lparr>toast_type = ty, message = msg, timer_id = Suc (last_handle st)\<rparr>
           else None)
      \<and> timers (advance d st1)
        = (if d < 3 * 1000 then [(Suc (last_handle st), clock st + 3 * 1000)] else [])
      \<and> rendered_toasts (advance d st1)
        = (if d < 3 * 1000
           then [(if ty = ''success'' then ''#10b981'' else ''#ef4444'', msg)] else [])"
    if att: "attached st"
  proof -
    have t: "toast st1 = Some \<lparr>toast_type = ty, message = msg, timer_id = Suc (last_handle st)\<rparr>"
      using att by (simp add: st1_def showToast_toast)
    have tm: "timers st1 = [(Suc (last_handle st), clock st + 3000)]"
      using att inv by (simp add: st1_def showToast_timers)
    show ?thesis
      using att by (simp add: advance_one [OF tm] setToast_def rendered_toasts_def a c t tm)
  qed
  have "advance d' (advance d st1) = advance (d + d') st1"
    using inv1 by (intro advance_add inv_at_most_one)
  with shown show ?thesis
    unfolding st1_def [symmetric] st_def [symmetric] by simp
qed

theorem toast_dismissed_after_3000ms_witness:
  "attached (exec [])
   \<and> toast (advance 2999 (showToast ''error'' ''Action failed'' (exec [])))
     = Some \<lparr>toast_type = ''error'', message = ''Action failed'', timer_id = 1\<rparr>
   \<and> toast (advance 3000 (showToast ''error'' ''Action failed'' (exec []))) = None
   \<and> timers (advance 3000 (showToast ''error'' ''Action failed'' (exec []))) = []"
proof -
  have h: "attached (exec [])"
    by code_simp
  have a: "last_handle (exec []) = 0"
    by code_simp
  show ?thesis
    using h toast_dismissed_after_3000ms [of "[]" 2999 "''error''" "''Action failed''"]
      toast_dismissed_after_3000ms [of "[]" 3000 "''error''" "''Action failed''"]
    by (simp add: a)
qed


section \<open>Loading and actions\<close>

text \<open>
  Claim C2.  For every state, and so every cached list: a \<open>loadStudents\<close> whose request
  fails leaves the cached list as it was (neither the part before the request nor the
  part after it writes the list); and on a page whose component is in the tree it shows
  the error notification and ends with the loading flag cleared; the flag is set while
  the request is out and is cleared however the request ends; a request that succeeds
  replaces the list.
\<close>

theorem loadStudents_failure_keeps_list:
  "students (loadStudents Rejected st) = students st
   \<and> students (loadStudents_begin st) = students st
   \<and> students (loadStudents_settle Rejected st) = students st
   \<and> (attached st \<longrightarrow>
        toast (loadStudents Rejected st)
          = Some \<lparr>toast_type = ''error'', message = ''Failed to connect to database'',
                  timer_id = Suc (last_handle st)\<rparr>
        \<and> rendered_toasts (loadStudents Rejected st)
          = [(''#ef4444'', ''Failed to connect to database'')]
        \<and> loading (loadStudents_begin st)
        \<and> loading (loadStudents res st) = False
        \<and> loading (loadStudents_settle res st) = False
        \<and> students (loadStudents (Resolved d) st) = d)"
  by (cases res)
     (simp_all add: loadStudents_def loadStudents_settle_def loadStudents_begin_def
        setLoading_def setStudents_def console_error_def discard_def showToast_frame
        showToast_toast rendered_toasts_def Let_def)

theorem loadStudents_failure_keeps_list_witness:
  "attached (exec [Run_settled (Resolved [ravi, meera])])
   \<and> students (exec [Run_settled (Resolved [ravi, meera])]) = [ravi, meera]
   \<and> students (loadStudents Rejected (exec [Run_settled (Resolved [ravi, meera])]))
       = [ravi, meera]
   \<and> toast (loadStudents Rejected (exec [Run_settled (Resolved [ravi, meera])]))
       = Some \<lparr>toast_type = ''error'', message = ''Failed to connect to database'',
               timer_id = 1\<rparr>
   \<and> loading (loadStudents Rejected (exec [Run_settled (Resolved [ravi, meera])])) = False"
proof -
  have h: "attached (exec [Run_settled (Resolved [ravi, meera])])"
    by code_simp
  have a: "students (exec [Run_settled (Resolved [ravi, meera])]) = [ravi, meera]"
    by code_simp
  have b: "last_handle (exec [Run_settled (Resolved [ravi, meera])]) = 0"
    by code_simp
  show ?thesis
    using h loadStudents_failure_keeps_list
      [of "exec [Run_settled (Resolved [ravi, meera])]" Rejected]
    by (simp add: a b)
qed

text \<open>Once the component is gone, no event changes what it held or sets a timer.\<close>

lemma still_gone_refl: "\<not> attached st \<Longrightarrow> \<not> isMounted st \<Longrightarrow> still_gone st st"
  by (simp add: still_gone_def)

lemma still_gone_trans: "still_gone st st' \<Longrightarrow> still_gone st' st'' \<Longrightarrow> still_gone st st''"
  by (auto simp: still_gone_def)

lemma fire_gone: "\<not> attached st \<Longrightarrow> \<not> isMounted st \<Longrightarrow> still_gone st (fire h st)"
  by (auto simp: still_gone_def cells_def fire_def setToast_def clearTimeout_def discard_def)

lemma fold_fire_gone:
  "\<not> attached st \<Longrightarrow> \<not> isMounted st \<Longrightarrow> still_gone st (fold fire hs st)"
proof (induction hs arbitrary: st)
  case Nil
  then show ?case by (simp add: still_gone_refl)
next
  case (Cons h hs)
  have first: "still_gone st (fire h st)"
    using Cons.prems by (rule fire_gone)
  then have "still_gone (fire h st) (fold fire hs (fire h st))"
    by (intro Cons.IH) (simp_all add: still_gone_def)
  with first show ?case
    by (simp add: still_gone_trans)
qed

lemma advance_gone:
  assumes "\<not> attached st" and "\<not> isMounted st"
  shows "still_gone st (advance d st)"
proof -
  let ?st1 = "st\<lparr>clock := clock st + d\<rparr>"
  have "still_gone ?st1 (fold fire hs ?st1)" for hs
    using assms by (intro fold_fire_gone) simp_all
  then show ?thesis
    by (simp add: advance_def Let_def still_gone_def cells_def)
qed

lemma loadStudents_settle_gone:
  "\<not> attached st \<Longrightarrow> \<not> isMounted st \<Longrightarrow> still_gone st (loadStudents_settle res st)"
  by (cases res)
     (simp_all add: still_gone_def cells_def loadStudents_settle_def setLoading_def
        setStudents_def console_error_def showToast_detached discard_def)

lemma handleRequest_settle_gone:
  "\<not> attached st \<Longrightarrow> \<not> isMounted st \<Longrightarrow> still_gone st (handleRequest_settle a res st)"
  by (cases res)
     (simp_all add: still_gone_def cells_def handleRequest_settle_def loadStudents_begin_def
        setLoading_def showToast_detached discard_def Let_def)

lemma run_settle_gone: "\<not> isMounted st \<Longrightarrow> run_settle res st = st"
  by (cases res) (simp_all add: run_settle_def)

lemma step_gone:
  assumes "\<not> attached st" and "\<not> isMounted st"
  shows "still_gone st (step e st)"
  using assms
  by (cases e)
     (simp_all add: still_gone_refl loadStudents_settle_gone handleRequest_settle_gone
        run_settle_gone advance_gone)

lemma fold_step_gone:
  "\<not> attached st \<Longrightarrow> \<not> isMounted st \<Longrightarrow> still_gone st (fold step evs st)"
proof (induction evs arbitrary: st)
  case Nil
  then show ?case by (simp add: still_gone_refl)
next
  case (Cons e evs)
  have first: "still_gone st (step e st)"
    using Cons.prems by (rule step_gone)
  then have "still_gone (step e st) (fold step evs (step e st))"
    by (intro Cons.IH) (simp_all add: still_gone_def)
  with first show ?case
    by (simp add: still_gone_trans)
qed

lemma unmount_gone: "still_gone (unmount st) (fold step evs (unmount st))"
  by (rule fold_step_gone) (simp_all add: unmount_eq)

text \<open>
  Claim C3, as amended.  For every asynchronous fetch, the initial load and any
  user-triggered refresh or action: once the component is torn down, whatever happens
  afterwards (stale responses of any of the three kinds, timers expiring), the visible
  state keeps the values it held at teardown, nothing is drawn, and no timer is set.
  For the initial load this is the work of the \<open>isMounted\<close> flag, cleared by the cleanup
  of the effect: a response that arrives after teardown calls no setter and changes
  nothing at all.  The refresh and the action carry no such flag: their responses call
  the setters all the same, and the updates are discarded because the component is
  gone.
\<close>

theorem stale_response_after_teardown:
  "cells (fold step evs (unmount st)) = cells st
   \<and> rendered_toasts (fold step evs (unmount st)) = []
   \<and> last_handle (fold step evs (unmount st)) = last_handle st
   \<and> set (timers (fold step evs (unmount st))) \<subseteq> set (timers st)
   \<and> cells (loadStudents_settle res (fold step evs (unmount st))) = cells st
   \<and> cells (handleRequest_settle action pres (fold step evs (unmount st))) = cells st
   \<and> run_settle res (fold step evs (unmount st)) = fold step evs (unmount st)"
proof -
  define st' where "st' = fold step evs (unmount st)"
  have u: "cells (unmount st) = cells st" "last_handle (unmount st) = last_handle st"
    "timers (unmount st) = timers st"
    by (simp_all add: unmount_eq cells_def)
  have g: "still_gone (unmount st) st'"
    unfolding st'_def by (rule unmount_gone)
  then have gone: "\<not> attached st'" "\<not> isMounted st'"
    by (simp_all add: still_gone_def)
  have l: "still_gone st' (loadStudents_settle res st')"
    using gone by (rule loadStudents_settle_gone)
  have p: "still_gone st' (handleRequest_settle action pres st')"
    using gone by (rule handleRequest_settle_gone)
  have r: "run_settle res st' = st'"
    using gone(2) by (rule run_settle_gone)
  from g l p r u show ?thesis
    unfolding st'_def [symmetric]
    by (simp add: still_gone_def rendered_toasts_def)
qed

text \<open>
  An instance: a refresh is started and the component torn down; the response then
  brings two records and the list still holds the one it held.  An initial load that
  answers after teardown leaves the state as it is; on a page in the tree it stores the
  record.
\<close>

theorem stale_response_after_teardown_witness:
  "students (exec [Run_settled (Resolved [ravi]), Click_refresh, Unmount,
                   Load_settled (Resolved [ravi, meera])]) = [ravi]
   \<and> timers (exec [Run_settled (Resolved [ravi]), Click_refresh, Unmount,
                   Load_settled Rejected]) = []
   \<and> run_settle (Resolved [ravi]) (exec [Unmount, Advance 10]) = exec [Unmount, Advance 10]
   \<and> students (run_settle (Resolved [ravi]) (exec [])) = [ravi]"
proof -
  let ?st = "exec [Run_settled (Resolved [ravi]), Click_refresh]"
  have h: "attached ?st" "attached (exec [])"
    by code_simp+
  have e1: "exec [Run_settled (Resolved [ravi]), Click_refresh, Unmount,
                  Load_settled (Resolved [ravi, meera])]
              = fold step [Load_settled (Resolved [ravi, meera])] (unmount ?st)"
    using h by (simp add: exec_def)
  have e2: "exec [Run_settled (Resolved [ravi]), Click_refresh, Unmount, Load_settled Rejected]
              = fold step [Load_settled Rejected] (unmount ?st)"
    using h by (simp add: exec_def)
  have e3: "exec [Unmount, Advance 10] = fold step [Advance 10] (unmount (exec []))"
    using h by (simp add: exec_def)
  have s: "students ?st = [ravi]" "timers ?st = []"
    by code_simp+
  have c: "students (run_settle (Resolved [ravi]) (exec [])) = [ravi]"
    by code_simp
  have "students (exec [Run_settled (Resolved [ravi]), Click_refresh, Unmount,
                   Load_settled (Resolved [ravi, meera])]) = [ravi]"
    using stale_response_after_teardown
      [of "[Load_settled (Resolved [ravi, meera])]" ?st]
    by (simp add: e1 s cells_def)
  moreover have "timers (exec [Run_settled (Resolved [ravi]), Click_refresh, Unmount,
                   Load_settled Rejected]) = []"
    using stale_response_after_teardown [of "[Load_settled Rejected]" ?st]
    by (simp add: e2 s)
  moreover have "run_settle (Resolved [ravi]) (exec [Unmount, Advance 10])
                   = exec [Unmount, Advance 10]"
    using stale_response_after_teardown [of "[Advance 10]" "exec []" "Resolved [ravi]"]
    by (simp add: e3)
  ultimately show ?thesis
    using c by simp
qed

text \<open>
  Claim C3 as stated fails where it says that a liveness flag suppresses all state
  updates after teardown, for the user-triggered refresh and action.  A refresh is
  started and the component torn down (the cleanup's own \<open>setToast\<close> is the first update
  discarded); the response then calls \<open>setStudents\<close> and \<open>setLoading\<close>.  An action is
  started and the component torn down; its failure then calls \<open>setToast\<close>.  No flag
  holds these calls back; the updates are discarded because the component is gone.  The
  initial load's response, behind its flag, calls no setter.
\<close>

theorem refresh_and_action_unguarded_after_teardown:
  "dropped (exec [Run_settled (Resolved [ravi]), Click_refresh, Unmount]) = [''setToast'']
   \<and> dropped (exec [Run_settled (Resolved [ravi]), Click_refresh, Unmount,
                     Load_settled (Resolved [ravi, meera])])
       = [''setToast'', ''setStudents'', ''setLoading'']
   \<and> dropped (exec [Run_settled (Resolved [ravi]), Click_action (JNum 1) ''approve'', Unmount,
                     Post_settled ''approve'' Rejected])
       = [''setToast'', ''setToast'']
   \<and> dropped (exec [Unmount, Run_settled (Resolved [ravi])]) = [''setToast'']"
  by code_simp

text \<open>
  Claim C5.  For every student id and action, \<open>handleRequest\<close> sends the post.  If the
  post succeeds, exactly one \<open>GET /users/all\<close> follows, sent by the one call of
  \<open>loadStudents\<close>, while the cached list itself is not touched; if the post fails, no
  request follows, and list and loading flag stay as they were.  On a page whose
  component is in the tree, success shows the success notification and sets the loading
  flag, and failure shows the error notification.
\<close>

theorem handleRequest_outcomes:
  "requests (handleRequest sid action (Resolved ()) st)
     = requests st @ [Post_manage_hostel sid action, Get_users_all]
   \<and> students (handleRequest sid action (Resolved ()) st) = students st
   \<and> requests (handleRequest sid action Rejected st)
       = requests st @ [Post_manage_hostel sid action]
   \<and> loading (handleRequest sid action Rejected st) = loading st
   \<and> students (handleRequest sid action Rejected st) = students st
   \<and> requests (handleRequest_settle action (Resolved ()) st) = requests st @ [Get_users_all]
   \<and> requests (handleRequest_settle action Rejected st) = requests st
   \<and> students (handleRequest_settle action res st) = students st
   \<and> (attached st \<longrightarrow>
        toast (handleRequest sid action (Resolved ()) st)
          = Some \<lparr>toast_type = ''success'',
                  message = ''Request '' @ action @ ''ed successfully'',
                  timer_id = Suc (last_handle st)\<rparr>
        \<and> loading (handleRequest sid action (Resolved ()) st)
        \<and> toast (handleRequest sid action Rejected st)
          = Some \<lparr>toast_type = ''error'', message = ''Action failed'',
                  timer_id = Suc (last_handle st)\<rparr>)"
  by (cases res)
     (simp_all add: handleRequest_def handleRequest_begin_def handleRequest_settle_def
        loadStudents_begin_def setLoading_def discard_def showToast_frame showToast_toast
        Let_def)

theorem handleRequest_outcomes_witness:
  "attached (exec [Run_settled (Resolved [meera])])
   \<and> toast (handleRequest (JNum 2) ''approve'' (Resolved ()) (exec [Run_settled (Resolved [meera])]))
     = Some \<lparr>toast_type = ''success'', message = ''Request approveed successfully'',
             timer_id = 1\<rparr>
   \<and> requests (handleRequest (JNum 2) ''approve'' (Resolved ())
        (exec [Run_settled (Resolved [meera])]))
       = [Get_users_all, Post_manage_hostel (JNum 2) ''approve'', Get_users_all]
   \<and> toast (handleRequest (JNum 2) ''reject'' Rejected (exec [Run_settled (Resolved [meera])]))
     = Some \<lparr>toast_type = ''error'', message = ''Action failed'', timer_id = 1\<rparr>
   \<and> requests (handleRequest (JNum 2) ''reject'' Rejected (exec [Run_settled (Resolved [meera])]))
       = [Get_users_all, Post_manage_hostel (JNum 2) ''reject'']"
proof -
  have h: "attached (exec [Run_settled (Resolved [meera])])"
    by code_simp
  have a: "last_handle (exec [Run_settled (Resolved [meera])]) = 0"
    by code_simp
  have b: "requests (exec [Run_settled (Resolved [meera])]) = [Get_users_all]"
    by code_simp
  show ?thesis
    using h handleRequest_outcomes
        [of "JNum 2" "''approve''" "exec [Run_settled (Resolved [meera])]"]
      handleRequest_outcomes
        [of "JNum 2" "''reject''" "exec [Run_settled (Resolved [meera])]"]
    by (simp add: a b)
qed

end
